theory Spec2Isabelle
  imports Complex_Main
begin

section \<open>Numbers of the host language\<close>

text \<open>
  Every numeric field and variable of \<^verbatim>\<open>main.ts\<close> has the type \<^verbatim>\<open>number\<close>.
  The embedding takes a number to be either \<open>NaN\<close> or an exact real: the arithmetic of
  the program is carried out without rounding, and the infinities and the sign of zero of
  the binary floating point format are left out.  \<open>NaN\<close> is kept, because the program
  stores it (a relation token that does not parse) and its comparisons decide how the
  loops of \<^verbatim>\<open>estimateElo\<close> run.

  Two things follow for \<^verbatim>\<open>estimateElo\<close>.  In the model \<open>(v - 1) + 1\<close> is \<open>v\<close>, while
  the floating point sum can differ from \<open>v\<close> (for \<open>v\<close> between 0 and 0.5, for
  instance); and in the model the scan always ends, while in floating point
  \<^verbatim>\<open>testElo += 1\<close> no longer changes \<^verbatim>\<open>testElo\<close> from \<open>2 ^ 53\<close> on, so that the scan of
  the program does not end there.  The values the theorems below evaluate the estimator
  at are small integers and halves, which floating point holds and adds exactly; the
  theorems about the parser and the updater hold whatever value the estimator returns.

  The operators follow the host language on these values: arithmetic with a \<open>NaN\<close>
  operand gives \<open>NaN\<close>, every comparison with a \<open>NaN\<close> operand is false (also
  \<^verbatim>\<open>NaN == NaN\<close>), and \<^verbatim>\<open>Math.min\<close>, \<^verbatim>\<open>Math.max\<close>, \<^verbatim>\<open>Math.abs\<close> and
  \<^verbatim>\<open>Math.pow\<close> return \<open>NaN\<close> on a \<open>NaN\<close> argument.
\<close>

datatype number = NaN | Num real

instantiation number :: "{zero, one, plus, minus, times, inverse, abs, ord}"
begin

definition zero_number :: number where
  "zero_number = Num 0"

definition one_number :: number where
  "one_number = Num 1"

definition plus_number :: "number \<Rightarrow> number \<Rightarrow> number" where
  "plus_number a b = (case a of NaN \<Rightarrow> NaN | Num x \<Rightarrow> (case b of NaN \<Rightarrow> NaN | Num y \<Rightarrow> Num (x + y)))"

definition minus_number :: "number \<Rightarrow> number \<Rightarrow> number" where
  "minus_number a b = (case a of NaN \<Rightarrow> NaN | Num x \<Rightarrow> (case b of NaN \<Rightarrow> NaN | Num y \<Rightarrow> Num (x - y)))"

definition times_number :: "number \<Rightarrow> number \<Rightarrow> number" where
  "times_number a b = (case a of NaN \<Rightarrow> NaN | Num x \<Rightarrow> (case b of NaN \<Rightarrow> NaN | Num y \<Rightarrow> Num (x * y)))"

text \<open>
  A quotient with divisor zero is an infinity or \<open>NaN\<close> in the host language; the model
  has no infinities and gives \<open>NaN\<close>.  The divisors of the program are the constant 400
  and \<open>1 + Math.pow(10, _)\<close>, which is at least 1.
\<close>

definition divide_number :: "number \<Rightarrow> number \<Rightarrow> number" where
  "divide_number a b =
     (case a of NaN \<Rightarrow> NaN
      | Num x \<Rightarrow> (case b of NaN \<Rightarrow> NaN | Num y \<Rightarrow> if y = 0 then NaN else Num (x / y)))"

definition inverse_number :: "number \<Rightarrow> number" where
  "inverse_number a = divide (Num 1) a"

definition abs_number :: "number \<Rightarrow> number" where
  "abs_number a = (case a of NaN \<Rightarrow> NaN | Num x \<Rightarrow> Num \<bar>x\<bar>)"

definition less_eq_number :: "number \<Rightarrow> number \<Rightarrow> bool" where
  "less_eq_number a b = (case a of NaN \<Rightarrow> False | Num x \<Rightarrow> (case b of NaN \<Rightarrow> False | Num y \<Rightarrow> x \<le> y))"

definition less_number :: "number \<Rightarrow> number \<Rightarrow> bool" where
  "less_number a b = (case a of NaN \<Rightarrow> False | Num x \<Rightarrow> (case b of NaN \<Rightarrow> False | Num y \<Rightarrow> x < y))"

instance ..

end

instance number :: semigroup_add
proof
  fix a b c :: number
  show "a + b + c = a + (b + c)"
    by (cases a; cases b; cases c) (simp_all add: plus_number_def)
qed

instance number :: numeral ..

text \<open>The operator \<^verbatim>\<open>==\<close> on two numbers.\<close>

definition num_eq :: "number \<Rightarrow> number \<Rightarrow> bool" where
  "num_eq a b = (case a of NaN \<Rightarrow> False | Num x \<Rightarrow> (case b of NaN \<Rightarrow> False | Num y \<Rightarrow> x = y))"

definition Math_min :: "number \<Rightarrow> number \<Rightarrow> number" where
  "Math_min a b = (case a of NaN \<Rightarrow> NaN | Num x \<Rightarrow> (case b of NaN \<Rightarrow> NaN | Num y \<Rightarrow> Num (min x y)))"

definition Math_max :: "number \<Rightarrow> number \<Rightarrow> number" where
  "Math_max a b = (case a of NaN \<Rightarrow> NaN | Num x \<Rightarrow> (case b of NaN \<Rightarrow> NaN | Num y \<Rightarrow> Num (max x y)))"

definition Math_abs :: "number \<Rightarrow> number" where
  "Math_abs a = \<bar>a\<bar>"

text \<open>
  \<^verbatim>\<open>Math.pow\<close> for a positive base, the only use the program makes of it (the base
  is the constant 10).
\<close>

definition Math_pow :: "number \<Rightarrow> number \<Rightarrow> number" where
  "Math_pow a b =
     (case a of NaN \<Rightarrow> NaN
      | Num x \<Rightarrow> (case b of NaN \<Rightarrow> NaN | Num y \<Rightarrow> if 0 < x then Num (x powr y) else NaN))"

definition Number_isNaN :: "number \<Rightarrow> bool" where
  "Number_isNaN a = (case a of NaN \<Rightarrow> True | Num x \<Rightarrow> False)"


section \<open>Data structures\<close>

text \<open>
  \<^verbatim>\<open>type EloRelationOp = "eq" | "gt" | "lt" | "nop"\<close>, and the interfaces
  \<^verbatim>\<open>EloRelation\<close> and \<^verbatim>\<open>EloItem\<close>.  The field \<^verbatim>\<open>eloRelations\<close> of an item object
  holds a reference to an array, which other objects may hold too.  The record leaves the
  type of that field open: \<open>EloItem\<close> is an item read as a value, with the list of the
  elements of its array in the field; the objects of the store (further down) have the
  reference there.
\<close>

datatype EloRelationOp = eq | gt | lt | nop

record EloRelation =
  op :: EloRelationOp
  "value" :: number

record 'a EloItem_of =
  title :: string
  estimatedElo :: number
  eloRelations :: 'a

type_synonym EloItem = "EloRelation list EloItem_of"

definition ITEM_INCUBATION_TIME :: nat where
  "ITEM_INCUBATION_TIME = 4"

definition DEFAULT_ELO :: number where
  "DEFAULT_ELO = 600"


section \<open>The strength estimator\<close>

text \<open>
  \<^verbatim>\<open>estimateElo\<close>, lines 95 to 155.  The first loop (lines 100 to 113) runs over the
  relations at the indices \<open>1, 2, \<dots>\<close>; its body reads the operator of the relation at
  the loop index and the value of the relation at the index 1, as the source writes it
  (\<^verbatim>\<open>item.eloRelations[1].value\<close>).  The body runs only when the list has at least two
  elements, so the read at index 1 is in range.
\<close>

definition bounds_body :: "EloRelation list \<Rightarrow> EloRelation \<Rightarrow> number \<times> number \<Rightarrow> number \<times> number" where
  "bounds_body rels r b =
     (case b of (minElo, maxElo) \<Rightarrow>
        (case op r of
           eq \<Rightarrow> (Math_min (value (rels ! 1)) minElo, Math_max (value (rels ! 1)) maxElo)
         | lt \<Rightarrow> (Math_min (value (rels ! 1)) minElo, maxElo)
         | gt \<Rightarrow> (minElo, Math_max (value (rels ! 1)) maxElo)
         | nop \<Rightarrow> (minElo, maxElo)))"

text \<open>
  Lines 98 to 115: both bounds start at the value of the first relation, the loop runs,
  and the window is widened by one on each side.  The function is used on non-empty
  lists only.
\<close>

definition elo_bounds :: "EloRelation list \<Rightarrow> number \<times> number" where
  "elo_bounds rels =
     (case fold (bounds_body rels) (tl rels) (value (hd rels), value (hd rels)) of
        (minElo, maxElo) \<Rightarrow> (minElo - 1, maxElo + 1))"

text \<open>Lines 123 to 142: the error of one relation at the candidate \<open>testElo\<close>.\<close>

definition relError :: "EloRelation \<Rightarrow> number \<Rightarrow> number" where
  "relError r testElo =
     (case op r of
        eq \<Rightarrow> Math_abs (value r - testElo)
      | lt \<Rightarrow> Math_max 0 (testElo - value r + 1)
      | gt \<Rightarrow> Math_max 0 (value r - testElo + 1)
      | nop \<Rightarrow> 0)"

text \<open>Lines 121 to 144: the inner loop adds the squared errors, starting from 0.\<close>

definition total_error :: "EloRelation list \<Rightarrow> number \<Rightarrow> number" where
  "total_error rels testElo =
     foldl (\<lambda>error r. error + relError r testElo * relError r testElo) 0 rels"

text \<open>
  Lines 120 to 150: the outer loop, with the loop variable \<open>testElo\<close> and the two
  variables \<open>bestError\<close> and \<open>bestTestElo\<close> it updates.  It returns \<open>bestTestElo\<close> as it
  stands when the loop condition fails.
\<close>

definition search_measure ::
  "EloRelation list \<times> number \<times> number \<times> number \<times> number \<times> number \<Rightarrow> nat" where
  "search_measure p =
     (case p of (rels, minElo, maxElo, testElo, bestError, bestTestElo) \<Rightarrow>
        (case maxElo of NaN \<Rightarrow> 0
         | Num m \<Rightarrow> (case testElo of NaN \<Rightarrow> 0 | Num x \<Rightarrow> nat \<lceil>m - x + 1\<rceil>)))"

function search_loop ::
  "EloRelation list \<Rightarrow> number \<Rightarrow> number \<Rightarrow> number \<Rightarrow> number \<Rightarrow> number \<Rightarrow> number" where
  "search_loop rels minElo maxElo testElo bestError bestTestElo =
     (if testElo \<le> maxElo then
        (let error = total_error rels testElo in
         if num_eq testElo minElo \<or> error < bestError
         then search_loop rels minElo maxElo (testElo + 1) error testElo
         else search_loop rels minElo maxElo (testElo + 1) bestError bestTestElo)
      else bestTestElo)"
  by pat_completeness auto
termination
proof (relation "measure search_measure")
  show "wf (measure search_measure)"
    by simp
next
  fix rels :: "EloRelation list" and minElo maxElo testElo bestError bestTestElo x :: number
  assume "testElo \<le> maxElo"
  then obtain m t where mt: "maxElo = Num m" "testElo = Num t" "t \<le> m"
    by (cases maxElo; cases testElo) (simp_all add: less_eq_number_def)
  have "nat \<lceil>m - (t + 1) + 1\<rceil> < nat \<lceil>m - t + 1\<rceil>"
    using mt(3) by linarith
  then show "((rels, minElo, maxElo, testElo + 1, x, testElo),
          (rels, minElo, maxElo, testElo, bestError, bestTestElo)) \<in> measure search_measure"
    by (simp add: search_measure_def mt plus_number_def one_number_def)
next
  fix rels :: "EloRelation list" and minElo maxElo testElo bestError bestTestElo x :: number
  assume "testElo \<le> maxElo"
  then obtain m t where mt: "maxElo = Num m" "testElo = Num t" "t \<le> m"
    by (cases maxElo; cases testElo) (simp_all add: less_eq_number_def)
  have "nat \<lceil>m - (t + 1) + 1\<rceil> < nat \<lceil>m - t + 1\<rceil>"
    using mt(3) by linarith
  then show "((rels, minElo, maxElo, testElo + 1, bestError, bestTestElo),
          (rels, minElo, maxElo, testElo, bestError, bestTestElo)) \<in> measure search_measure"
    by (simp add: search_measure_def mt plus_number_def one_number_def)
qed

declare search_loop.simps [simp del]

text \<open>
  \<^verbatim>\<open>estimateElo(item)\<close>: the search over the window when the item has a relation
  (\<open>bestError\<close> and \<open>bestTestElo\<close> start at 0), the constant \<^verbatim>\<open>DEFAULT_ELO\<close> otherwise.
\<close>

definition estimateElo :: "EloItem \<Rightarrow> number" where
  "estimateElo item =
     (if length (eloRelations item) > 0 then
        (case elo_bounds (eloRelations item) of
           (minElo, maxElo) \<Rightarrow> search_loop (eloRelations item) minElo maxElo minElo 0 0)
      else DEFAULT_ELO)"


section \<open>Parsing\<close>

text \<open>
  Strings of the host language are sequences of 16-bit code units; the embedding uses
  \<open>string\<close> and so covers the texts whose code units are below 256.

  \<^verbatim>\<open>String.prototype.trim\<close> removes white space and line terminators from both ends.
  Below 256 these are the code units 9 to 13, 32 and 160.  The dot of a regular
  expression matches every code unit but a line terminator: below 256, the code units 10
  and 13.
\<close>

definition is_white_space :: "char \<Rightarrow> bool" where
  "is_white_space c =
     (c = CHR 0x09 \<or> c = CHR 0x0A \<or> c = CHR 0x0B \<or> c = CHR 0x0C \<or> c = CHR 0x0D \<or>
      c = CHR 0x20 \<or> c = CHR 0xA0)"

definition is_line_terminator :: "char \<Rightarrow> bool" where
  "is_line_terminator c = (c = CHR 0x0A \<or> c = CHR 0x0D)"

definition trim :: "string \<Rightarrow> string" where
  "trim s = rev (dropWhile is_white_space (rev (dropWhile is_white_space s)))"

text \<open>
  \<^verbatim>\<open>s.split(",")\<close>: the pieces between the commas, in order; a string with no comma
  (the empty string too) gives one piece.
\<close>

fun split_comma :: "string \<Rightarrow> string list" where
  "split_comma [] = [[]]"
| "split_comma (c # cs) =
     (if c = CHR '','' then [] # split_comma cs
      else (case split_comma cs of [] \<Rightarrow> [[c]] | w # ws \<Rightarrow> (c # w) # ws))"

text \<open>
  \<^verbatim>\<open>parseFloat\<close> is a function of the host language, not of the repository.  It skips
  leading white space and reads the longest prefix that is a decimal literal: an optional
  sign, digits with an optional fraction (or a fraction alone), and an optional exponent
  that counts only when it has a digit.  When there is no such prefix the result is
  \<open>NaN\<close>.  The value is the exact real the literal denotes, not the nearest floating
  point number.  The literal \<^verbatim>\<open>Infinity\<close> and the literals beyond the floating point
  range (\<^verbatim>\<open>1e400\<close>), which the host language reads as an infinity, have no such value
  among the numbers of the model: the first is not recognised here and reads as \<open>NaN\<close>,
  the others read as the real they denote.
\<close>

definition is_digit :: "char \<Rightarrow> bool" where
  "is_digit c = (c \<in> set ''0123456789'')"

definition digits_value :: "string \<Rightarrow> nat" where
  "digits_value ds = foldl (\<lambda>n c. 10 * n + (of_char c - 48)) 0 ds"

definition take_sign :: "string \<Rightarrow> bool \<times> string" where
  "take_sign s =
     (case s of
        [] \<Rightarrow> (False, [])
      | c # cs \<Rightarrow> if c = CHR ''-'' then (True, cs) else if c = CHR ''+'' then (False, cs) else (False, s))"

definition exponent_part :: "string \<Rightarrow> int" where
  "exponent_part s =
     (case s of
        [] \<Rightarrow> 0
      | c # cs \<Rightarrow>
          if c = CHR ''e'' \<or> c = CHR ''E'' then
            (case take_sign cs of (neg, r) \<Rightarrow>
               (let ds = takeWhile is_digit r in
                if ds = [] then 0
                else if neg then - int (digits_value ds) else int (digits_value ds)))
          else 0)"

definition parseFloat :: "string \<Rightarrow> number" where
  "parseFloat s =
     (case take_sign (dropWhile is_white_space s) of (neg, s1) \<Rightarrow>
        (let ip = takeWhile is_digit s1;
             r1 = dropWhile is_digit s1;
             fp = (case r1 of [] \<Rightarrow> [] | c # cs \<Rightarrow> if c = CHR ''.'' then takeWhile is_digit cs else []);
             r2 = (case r1 of [] \<Rightarrow> [] | c # cs \<Rightarrow> if c = CHR ''.'' then dropWhile is_digit cs else r1)
         in if ip = [] \<and> fp = [] then NaN
            else
              (let m = real (digits_value ip) + real (digits_value fp) / 10 ^ length fp;
                   e = exponent_part r2;
                   v = (if 0 \<le> e then m * 10 ^ nat e else m / 10 ^ nat (- e))
               in Num (if neg then - v else v))))"

text \<open>\<^verbatim>\<open>parseEloRelation\<close>, lines 157 to 177.\<close>

definition parseEloRelation :: "string \<Rightarrow> EloRelation" where
  "parseEloRelation s0 =
     (let s = trim s0;
          op1 = (case s of [] \<Rightarrow> eq | c # cs \<Rightarrow> if c = CHR ''<'' then lt else if c = CHR ''>'' then gt else eq);
          s2 = (case s of [] \<Rightarrow> [] | c # cs \<Rightarrow> if c = CHR ''<'' then cs else if c = CHR ''>'' then cs else s);
          v = parseFloat s2
      in \<lparr>op = (if Number_isNaN v then nop else op1), value = v\<rparr>)"

text \<open>
  The match of line 180, \<^verbatim>\<open>s.match(/^(.+)\((.*)\)$/)\<close>, as the pair of its two groups.
  The pattern covers the whole string, so the string ends with a closing parenthesis and
  holds no line terminator.  The first group is greedy: it ends at the last opening
  parenthesis before the final character, and it is not empty.  The second group is the
  text between that parenthesis and the final one.
\<close>

definition relationsMatch :: "string \<Rightarrow> (string \<times> string) option" where
  "relationsMatch s =
     (if s \<noteq> [] \<and> last s = CHR '')'' \<and> list_all (\<lambda>c. \<not> is_line_terminator c) s then
        (case dropWhile (\<lambda>c. c \<noteq> CHR ''('') (rev (butlast s)) of
           [] \<Rightarrow> None
         | p # t \<Rightarrow>
             if t = [] then None
             else Some (rev t, rev (takeWhile (\<lambda>c. c \<noteq> CHR ''('') (rev (butlast s)))))
      else None)"

text \<open>\<^verbatim>\<open>parseEloItem\<close>, lines 179 to 195.\<close>

definition parseEloItem :: "string \<Rightarrow> EloItem" where
  "parseEloItem s =
     (case relationsMatch s of
        Some (g1, g2) \<Rightarrow>
          (let item = \<lparr>title = trim g1, estimatedElo = DEFAULT_ELO,
                       eloRelations = map parseEloRelation (split_comma g2)\<rparr>
           in item\<lparr>estimatedElo := estimateElo item\<rparr>)
      | None \<Rightarrow> \<lparr>title = trim s, estimatedElo = DEFAULT_ELO, eloRelations = []\<rparr>)"


section \<open>The rating updater\<close>

text \<open>
  \<^verbatim>\<open>updateRating\<close> and its two operations assign to the fields of the item they are
  bound to and push onto its relation array, so they are modelled on a store: item
  objects and arrays, each under a reference, with a counter for the next free
  reference of each kind.
\<close>

type_synonym ref = nat

record store =
  objects :: "ref \<Rightarrow> ref EloItem_of"
  arrays :: "ref \<Rightarrow> EloRelation list"
  next_object :: ref
  next_array :: ref

text \<open>The item under a reference, read as a value.\<close>

definition read_item :: "store \<Rightarrow> ref \<Rightarrow> EloItem" where
  "read_item st a =
     \<lparr>title = title (objects st a), estimatedElo = estimatedElo (objects st a),
      eloRelations = arrays st (eloRelations (objects st a))\<rparr>"

text \<open>
  The effects the source has on the store: the assignments \<^verbatim>\<open>item.estimatedElo = v\<close>
  and \<^verbatim>\<open>item.eloRelations = r\<close>, an array literal (a new array), \<^verbatim>\<open>push\<close> on an
  array, an object literal (a new object), and the shallow copy \<^verbatim>\<open>{ ...item }\<close> of
  lines 293, 294, 310 and 311, whose relation field holds the same reference as the
  original's.
\<close>

definition set_estimatedElo :: "ref \<Rightarrow> number \<Rightarrow> store \<Rightarrow> store" where
  "set_estimatedElo a v st = st\<lparr>objects := (objects st)(a := (objects st a)\<lparr>estimatedElo := v\<rparr>)\<rparr>"

definition set_eloRelations :: "ref \<Rightarrow> ref \<Rightarrow> store \<Rightarrow> store" where
  "set_eloRelations a r st = st\<lparr>objects := (objects st)(a := (objects st a)\<lparr>eloRelations := r\<rparr>)\<rparr>"

definition new_array :: "EloRelation list \<Rightarrow> store \<Rightarrow> ref \<times> store" where
  "new_array xs st =
     (next_array st, st\<lparr>arrays := (arrays st)(next_array st := xs), next_array := Suc (next_array st)\<rparr>)"

definition array_push :: "ref \<Rightarrow> EloRelation \<Rightarrow> store \<Rightarrow> store" where
  "array_push r x st = st\<lparr>arrays := (arrays st)(r := arrays st r @ [x])\<rparr>"

definition new_object :: "ref EloItem_of \<Rightarrow> store \<Rightarrow> ref \<times> store" where
  "new_object obj st =
     (next_object st, st\<lparr>objects := (objects st)(next_object st := obj), next_object := Suc (next_object st)\<rparr>)"

definition copy_item :: "ref \<Rightarrow> store \<Rightarrow> ref \<times> store" where
  "copy_item a st = new_object (objects st a) st"

text \<open>An item value put into the store as a new object with a new array.\<close>

definition store_item :: "EloItem \<Rightarrow> store \<Rightarrow> ref \<times> store" where
  "store_item item st =
     (case new_array (eloRelations item) st of
        (r, st1) \<Rightarrow> new_object \<lparr>title = title item, estimatedElo = estimatedElo item, eloRelations = r\<rparr> st1)"

definition empty_store :: store where
  "empty_store =
     \<lparr>objects = (\<lambda>a. \<lparr>title = [], estimatedElo = DEFAULT_ELO, eloRelations = 0\<rparr>),
      arrays = (\<lambda>r. []), next_object = 0, next_array = 0\<rparr>"

text \<open>Lines 43 to 45.\<close>

definition pA :: "EloItem \<Rightarrow> EloItem \<Rightarrow> number" where
  "pA a b = 1 / (1 + Math_pow 10 ((estimatedElo b - estimatedElo a) / 400))"

text \<open>
  \<^verbatim>\<open>updateRating(item)\<close> computes \<^verbatim>\<open>isDefinite\<close> once (lines 46, 47) and returns the
  two operations, which keep the item and that flag.
\<close>

record updater =
  bound_item :: ref
  isDefinite :: bool

definition updateRating :: "store \<Rightarrow> ref \<Rightarrow> updater" where
  "updateRating st item =
     \<lparr>bound_item = item,
      isDefinite = (length (eloRelations (read_item st item)) = 1 \<and>
                    op (eloRelations (read_item st item) ! 0) = eq)\<rparr>"

text \<open>Lines 63 to 67 and 85 to 89: the collapse after the incubation time.\<close>

definition collapse :: "ref \<Rightarrow> store \<Rightarrow> store" where
  "collapse item st =
     (if length (eloRelations (read_item st item)) > ITEM_INCUBATION_TIME then
        (case new_array [\<lparr>op = eq, value = estimatedElo (read_item st item)\<rparr>] st of
           (r, st1) \<Rightarrow> set_eloRelations item r st1)
      else st)"

text \<open>\<^verbatim>\<open>afterWinAgainst\<close>, lines 49 to 69.\<close>

definition afterWinAgainst :: "updater \<Rightarrow> ref \<Rightarrow> store \<Rightarrow> store" where
  "afterWinAgainst u looserItem st =
     (let item = bound_item u in
      if isDefinite u then
        (let itemNewElo =
               estimatedElo (read_item st item) + 32 * (1 - pA (read_item st item) (read_item st looserItem));
             st1 = set_estimatedElo item itemNewElo st
         in case new_array [\<lparr>op = eq, value = itemNewElo\<rparr>] st1 of
              (r, st2) \<Rightarrow> set_eloRelations item r st2)
      else
        (let otherNewElo =
               estimatedElo (read_item st looserItem) - 32 * pA (read_item st looserItem) (read_item st item);
             st1 = array_push (eloRelations (objects st item)) \<lparr>op = gt, value = otherNewElo\<rparr> st;
             st2 = set_estimatedElo item (estimateElo (read_item st1 item)) st1
         in collapse item st2))"

text \<open>\<^verbatim>\<open>afterLossAgainst\<close>, lines 70 to 91.\<close>

definition afterLossAgainst :: "updater \<Rightarrow> ref \<Rightarrow> store \<Rightarrow> store" where
  "afterLossAgainst u winnerItem st =
     (let item = bound_item u in
      if isDefinite u then
        (let itemNewElo =
               estimatedElo (read_item st item) - 32 * pA (read_item st item) (read_item st winnerItem);
             st1 = set_estimatedElo item itemNewElo st
         in case new_array [\<lparr>op = eq, value = itemNewElo\<rparr>] st1 of
              (r, st2) \<Rightarrow> set_eloRelations item r st2)
      else
        (let otherNewElo =
               estimatedElo (read_item st winnerItem) + 32 * (1 - pA (read_item st winnerItem) (read_item st item));
             st1 = array_push (eloRelations (objects st item)) \<lparr>op = lt, value = otherNewElo\<rparr> st;
             st2 = set_estimatedElo item (estimateElo (read_item st1 item)) st1
         in collapse item st2))"

text \<open>
  One comparison outcome applied to an item, the way lines 295 to 300 and 312 to 317
  call the updater: a fresh \<^verbatim>\<open>updateRating(item)\<close> and one of its two operations.
\<close>

datatype outcome = Win | Loss

definition update_item :: "ref \<Rightarrow> outcome \<times> ref \<Rightarrow> store \<Rightarrow> store" where
  "update_item item c st =
     (case c of
        (Win, opponent) \<Rightarrow> afterWinAgainst (updateRating st item) opponent st
      | (Loss, opponent) \<Rightarrow> afterLossAgainst (updateRating st item) opponent st)"

text \<open>
  The stores the program can build: parsed items put into the store, shallow copies, and
  the two operations of an updater that is bound to an item of the store, against an item
  of the store.  The updater may have been made earlier, when the item was in another
  state, so its flag is left open.
\<close>

inductive reachable :: "store \<Rightarrow> bool" where
  reachable_empty: "reachable empty_store"
| reachable_parse: "reachable st \<Longrightarrow> reachable (snd (store_item (parseEloItem s) st))"
| reachable_copy: "reachable st \<Longrightarrow> a < next_object st \<Longrightarrow> reachable (snd (copy_item a st))"
| reachable_win:
    "reachable st \<Longrightarrow> bound_item u < next_object st \<Longrightarrow> b < next_object st \<Longrightarrow>
     reachable (afterWinAgainst u b st)"
| reachable_loss:
    "reachable st \<Longrightarrow> bound_item u < next_object st \<Longrightarrow> b < next_object st \<Longrightarrow>
     reachable (afterLossAgainst u b st)"


section \<open>The wording of the specification\<close>

text \<open>
  Two definitions that follow the specification's words instead of the source, for the
  comparison with \<open>elo_bounds\<close> and with the title \<open>parseEloItem\<close> gives.

  The search window of the specification (4.3, step 2): both bounds are seeded from the
  first relation's value; each subsequent \<open>Equal\<close> or \<open>LessThan\<close> relation lowers
  \<open>minBound\<close> by its own value, each subsequent \<open>Equal\<close> or \<open>GreaterThan\<close> relation
  raises \<open>maxBound\<close> by its own value, an \<open>Unparseable\<close> relation changes neither; the
  window is then widened by 1 on each side.
\<close>

definition spec_bounds_body :: "EloRelation \<Rightarrow> number \<times> number \<Rightarrow> number \<times> number" where
  "spec_bounds_body r b =
     (case b of (minBound, maxBound) \<Rightarrow>
        (case op r of
           eq \<Rightarrow> (Math_min (value r) minBound, Math_max (value r) maxBound)
         | lt \<Rightarrow> (Math_min (value r) minBound, maxBound)
         | gt \<Rightarrow> (minBound, Math_max (value r) maxBound)
         | nop \<Rightarrow> (minBound, maxBound)))"

definition spec_bounds :: "EloRelation list \<Rightarrow> number \<times> number" where
  "spec_bounds rels =
     (case fold spec_bounds_body (tl rels) (value (hd rels), value (hd rels)) of
        (minBound, maxBound) \<Rightarrow> (minBound - 1, maxBound + 1))"

text \<open>The title of the specification (4.2): the text before the first opening parenthesis, trimmed.\<close>

definition spec_title :: "string \<Rightarrow> string" where
  "spec_title s = trim (takeWhile (\<lambda>c. c \<noteq> CHR ''('') s)"


section \<open>Predicates and examples used in the theorems\<close>

text \<open>
  A store is well formed when the relation array of every object has been allocated.
\<close>

definition well_formed :: "store \<Rightarrow> bool" where
  "well_formed st = (\<forall>a < next_object st. eloRelations (objects st a) < next_array st)"

text \<open>The bounds of the first loop are ordered, unless one of them is \<open>NaN\<close>.\<close>

definition ordered_bounds :: "number \<times> number \<Rightarrow> bool" where
  "ordered_bounds b = (case b of (minElo, maxElo) \<Rightarrow> minElo = NaN \<or> maxElo = NaN \<or> minElo \<le> maxElo)"

text \<open>
  An item is in its \<open>k\<close>-th incubation step when it has \<open>k\<close> relations and is not settled.
\<close>

definition incubating :: "nat \<Rightarrow> EloRelation list \<Rightarrow> bool" where
  "incubating k rels = (length rels = k \<and> (rels = [] \<or> op (rels ! 0) \<noteq> eq))"

text \<open>
  The store after parsing the three lines \<^verbatim>\<open>Alice (650)\<close>, \<^verbatim>\<open>Bob (600)\<close> and
  \<^verbatim>\<open>Carol\<close> (the objects 0, 1 and 2), and that store after a shallow copy of the
  third item (the object 3).
\<close>

definition example_store :: store where
  "example_store =
     snd (store_item (parseEloItem ''Carol'')
       (snd (store_item (parseEloItem ''Bob (600)'')
         (snd (store_item (parseEloItem ''Alice (650)'') empty_store)))))"

definition copied_store :: store where
  "copied_store = snd (copy_item 2 example_store)"


section \<open>Computing with numbers\<close>

lemma Num_plus: "Num a + Num b = Num (a + b)"
  by (simp add: plus_number_def)

lemma numeral_number: "(numeral k :: number) = Num (numeral k)"
proof (induction k)
  case One
  show ?case by (simp add: one_number_def)
next
  case (Bit0 k)
  have "(numeral (num.Bit0 k) :: number) = numeral k + numeral k"
    by (rule numeral_Bit0)
  also have "\<dots> = Num (numeral k) + Num (numeral k)"
    by (simp only: Bit0.IH)
  also have "\<dots> = Num (numeral (num.Bit0 k))"
    by (simp only: Num_plus numeral_Bit0)
  finally show ?case .
next
  case (Bit1 k)
  have "(numeral (num.Bit1 k) :: number) = numeral k + numeral k + 1"
    by (rule numeral_Bit1)
  also have "\<dots> = Num (numeral k) + Num (numeral k) + Num 1"
    by (simp only: Bit1.IH one_number_def)
  also have "\<dots> = Num (numeral (num.Bit1 k))"
    by (simp only: Num_plus numeral_Bit1)
  finally show ?case .
qed

lemma number_consts [simp]:
  "(0::number) = Num 0" "(1::number) = Num 1" "(numeral k :: number) = Num (numeral k)"
  by (simp_all add: zero_number_def one_number_def numeral_number)

lemma number_arith [simp]:
  "Num a + Num b = Num (a + b)" "NaN + y = NaN" "y + NaN = NaN"
  "Num a - Num b = Num (a - b)" "NaN - y = NaN" "y - NaN = NaN"
  "Num a * Num b = Num (a * b)" "NaN * y = NaN" "y * NaN = NaN"
  "b \<noteq> 0 \<Longrightarrow> Num a / Num b = Num (a / b)" "Num a / Num 0 = NaN" "NaN / y = NaN" "y / NaN = NaN"
  "\<bar>Num a\<bar> = Num \<bar>a\<bar>" "\<bar>NaN\<bar> = NaN"
  by (simp_all add: plus_number_def minus_number_def times_number_def divide_number_def
      abs_number_def split: number.splits)

lemma number_compare [simp]:
  "(Num a \<le> Num b) = (a \<le> b)" "(NaN \<le> y) = False" "(y \<le> NaN) = False"
  "(Num a < Num b) = (a < b)" "(NaN < y) = False" "(y < NaN) = False"
  "num_eq (Num a) (Num b) = (a = b)" "num_eq NaN y = False" "num_eq y NaN = False"
  by (simp_all add: less_eq_number_def less_number_def num_eq_def split: number.splits)

lemma Math_simps [simp]:
  "Math_min (Num a) (Num b) = Num (min a b)" "Math_min NaN y = NaN" "Math_min y NaN = NaN"
  "Math_max (Num a) (Num b) = Num (max a b)" "Math_max NaN y = NaN" "Math_max y NaN = NaN"
  "Math_abs (Num a) = Num \<bar>a\<bar>" "Math_abs NaN = NaN"
  "0 < a \<Longrightarrow> Math_pow (Num a) (Num b) = Num (a powr b)"
  "Math_pow NaN y = NaN" "Math_pow y NaN = NaN"
  "Number_isNaN NaN" "\<not> Number_isNaN (Num a)"
  by (simp_all add: Math_min_def Math_max_def Math_abs_def Math_pow_def Number_isNaN_def
      split: number.splits)

lemmas estimate_defs =
  estimateElo_def elo_bounds_def bounds_body_def search_loop.simps total_error_def relError_def

lemmas parse_defs =
  parseEloItem_def relationsMatch_def is_line_terminator_def trim_def is_white_space_def
  parseEloRelation_def parseFloat_def take_sign_def is_digit_def digits_value_def exponent_part_def

section \<open>The estimator on small lists\<close>

text \<open>
  Claim C9.  Estimating an empty relation list returns the default strength constant,
  600, whatever the other fields of the item hold.
\<close>

theorem estimateElo_empty:
  "estimateElo (item\<lparr>eloRelations := []\<rparr>) = DEFAULT_ELO \<and> DEFAULT_ELO = Num 600"
  by (simp add: estimateElo_def DEFAULT_ELO_def)

theorem estimateElo_empty_witness:
  "estimateElo \<lparr>title = ''Bob'', estimatedElo = NaN, eloRelations = []\<rparr> = Num 600"
  using estimateElo_empty [of "\<lparr>title = ''Bob'', estimatedElo = NaN, eloRelations = []\<rparr>"]
  by simp

text \<open>
  Claim C5 says that a single \<open>Equal\<close> relation with value \<open>v\<close> is estimated as \<open>v\<close>
  rounded to an integer.  The scan starts at \<open>v - 1\<close> and steps by 1, so it meets \<open>v\<close>
  itself: for the value 650.5 (the line \<^verbatim>\<open>A (650.5)\<close>) the estimate is 650.5, which is
  not an integer.
\<close>

theorem estimateElo_single_fraction:
  "estimateElo \<lparr>title = ''A'', estimatedElo = Num 600,
       eloRelations = [\<lparr>op = eq, value = Num (1301 / 2)\<rparr>]\<rparr> = Num (1301 / 2) \<and>
   parseEloItem ''A (650.5)'' =
     \<lparr>title = ''A'', estimatedElo = Num (1301 / 2), eloRelations = [\<lparr>op = eq, value = Num (1301 / 2)\<rparr>]\<rparr>"
  by (simp add: estimate_defs parse_defs DEFAULT_ELO_def)

text \<open>
  Claim C3 says that the estimate does not change when the \<open>Unparseable\<close> relations are
  removed, so that a list of \<open>Unparseable\<close> relations only is estimated as the empty
  list.  The bounds are seeded from the value of the first relation whatever its
  operator: for the one relation of the line \<^verbatim>\<open>A (x)\<close> they are \<open>NaN\<close>, the scan does
  not run, and the estimate is the initial value 0 of \<^verbatim>\<open>bestTestElo\<close>; with the
  relation removed it is 600.
\<close>

theorem estimateElo_unparseable_only:
  "estimateElo \<lparr>title = ''A'', estimatedElo = Num 600, eloRelations = [\<lparr>op = nop, value = NaN\<rparr>]\<rparr> = Num 0 \<and>
   estimateElo \<lparr>title = ''A'', estimatedElo = Num 600,
      eloRelations = filter (\<lambda>r. op r \<noteq> nop) [\<lparr>op = nop, value = NaN\<rparr>]\<rparr> = Num 600 \<and>
   parseEloItem ''A (x)'' = \<lparr>title = ''A'', estimatedElo = Num 0, eloRelations = [\<lparr>op = nop, value = NaN\<rparr>]\<rparr>"
  by (simp add: estimate_defs parse_defs DEFAULT_ELO_def)

text \<open>
  Claim C2 says that each relation after the first moves the bounds by its own value.
  The loop reads the value at index 1 for every relation: for the relations
  \<open>Equal 10, LessThan 20, LessThan 5\<close> the window of the source is \<open>[9, 11]\<close>, and the
  window the claim describes is \<open>[4, 11]\<close>.
\<close>

theorem elo_bounds_reads_index_one:
  "elo_bounds [\<lparr>op = eq, value = Num 10\<rparr>, \<lparr>op = lt, value = Num 20\<rparr>, \<lparr>op = lt, value = Num 5\<rparr>] = (Num 9, Num 11) \<and>
   spec_bounds [\<lparr>op = eq, value = Num 10\<rparr>, \<lparr>op = lt, value = Num 20\<rparr>, \<lparr>op = lt, value = Num 5\<rparr>] = (Num 4, Num 11)"
  by (simp add: elo_bounds_def bounds_body_def spec_bounds_def spec_bounds_body_def)

text \<open>
  Claim C1 says that the estimate is an integer whose total squared error is at most that
  of every integer of the search window.  Two inputs where it is not.  For the relations
  \<open>Equal 0.5, Equal 1, Equal 1\<close> the window is \<open>[-0.5, 2]\<close> (by the source and by the
  specification), the scan visits \<open>-0.5, 0.5, 1.5\<close> and returns 0.5 with the error
  0.5; the integer 1 of the window has the error 0.25.  For the relations
  \<open>Equal 10, Equal 10, Equal 0\<close> the window of the specification is \<open>[-1, 11]\<close>, the
  source scans \<open>[9, 11]\<close> only and returns 9 with the error 83; the integer 7 has the
  error 67.
\<close>

theorem estimateElo_not_best_integer:
  "estimateElo \<lparr>title = ''A'', estimatedElo = Num 600,
      eloRelations = [\<lparr>op = eq, value = Num (1 / 2)\<rparr>, \<lparr>op = eq, value = Num 1\<rparr>, \<lparr>op = eq, value = Num 1\<rparr>]\<rparr> = Num (1 / 2) \<and>
   elo_bounds [\<lparr>op = eq, value = Num (1 / 2)\<rparr>, \<lparr>op = eq, value = Num 1\<rparr>, \<lparr>op = eq, value = Num 1\<rparr>] = (Num (- 1 / 2), Num 2) \<and>
   spec_bounds [\<lparr>op = eq, value = Num (1 / 2)\<rparr>, \<lparr>op = eq, value = Num 1\<rparr>, \<lparr>op = eq, value = Num 1\<rparr>] = (Num (- 1 / 2), Num 2) \<and>
   total_error [\<lparr>op = eq, value = Num (1 / 2)\<rparr>, \<lparr>op = eq, value = Num 1\<rparr>, \<lparr>op = eq, value = Num 1\<rparr>] (Num (1 / 2)) = Num (1 / 2) \<and>
   total_error [\<lparr>op = eq, value = Num (1 / 2)\<rparr>, \<lparr>op = eq, value = Num 1\<rparr>, \<lparr>op = eq, value = Num 1\<rparr>] (Num 1) = Num (1 / 4) \<and>
   estimateElo \<lparr>title = ''A'', estimatedElo = Num 600,
      eloRelations = [\<lparr>op = eq, value = Num 10\<rparr>, \<lparr>op = eq, value = Num 10\<rparr>, \<lparr>op = eq, value = Num 0\<rparr>]\<rparr> = Num 9 \<and>
   elo_bounds [\<lparr>op = eq, value = Num 10\<rparr>, \<lparr>op = eq, value = Num 10\<rparr>, \<lparr>op = eq, value = Num 0\<rparr>] = (Num 9, Num 11) \<and>
   spec_bounds [\<lparr>op = eq, value = Num 10\<rparr>, \<lparr>op = eq, value = Num 10\<rparr>, \<lparr>op = eq, value = Num 0\<rparr>] = (Num (- 1), Num 11) \<and>
   total_error [\<lparr>op = eq, value = Num 10\<rparr>, \<lparr>op = eq, value = Num 10\<rparr>, \<lparr>op = eq, value = Num 0\<rparr>] (Num 9) = Num 83 \<and>
   total_error [\<lparr>op = eq, value = Num 10\<rparr>, \<lparr>op = eq, value = Num 10\<rparr>, \<lparr>op = eq, value = Num 0\<rparr>] (Num 7) = Num 67"
  by (simp add: estimate_defs spec_bounds_def spec_bounds_body_def)

section \<open>What the scan returns\<close>

text \<open>
  In the exact arithmetic of the model: when the bounds are numbers \<open>lo\<close> and \<open>hi\<close>,
  the estimate is one of the candidates
  \<open>lo, lo + 1, lo + 2, \<dots>\<close> of the window, and no candidate of the window has a
  smaller total error.  When \<open>lo\<close> is an integer the candidates are the integers of the
  window.
\<close>

lemma not_less_after_improvement:
  fixes a e b :: number
  assumes "\<not> a < b" and "e < b"
  shows "\<not> a < e"
  using assms by (cases a; cases e; cases b) simp_all

lemma not_less_self: "\<not> (e::number) < e"
  by (cases e) simp_all

lemma search_loop_best:
  assumes "minElo = Num lo" and "maxElo = Num hi" and "testElo = Num (lo + real n)"
    and "lo \<le> hi"
    and "n = 0 \<or> (lo + real n - 1 \<le> hi \<and> (\<exists>k<n. bestTestElo = Num (lo + real k) \<and>
           bestError = total_error rels (Num (lo + real k)) \<and>
           (\<forall>j<n. \<not> total_error rels (Num (lo + real j)) < bestError)))"
  shows "\<exists>k. search_loop rels minElo maxElo testElo bestError bestTestElo = Num (lo + real k) \<and>
           lo + real k \<le> hi \<and>
           (\<forall>j. lo + real j \<le> hi \<longrightarrow>
              \<not> total_error rels (Num (lo + real j)) < total_error rels (Num (lo + real k)))"
  using assms
proof (induction rels minElo maxElo testElo bestError bestTestElo arbitrary: n
    rule: search_loop.induct)
  case (1 rels minElo maxElo testElo bestError bestTestElo)
  note m = \<open>minElo = Num lo\<close> \<open>maxElo = Num hi\<close> \<open>testElo = Num (lo + real n)\<close>
  let ?e = "total_error rels testElo"
  show ?case
  proof (cases "testElo \<le> maxElo")
    case False
    then have over: "hi < lo + real n"
      by (simp add: m)
    with \<open>lo \<le> hi\<close> have "n \<noteq> 0"
      by auto
    with 1(7) obtain k where k: "k < n" "bestTestElo = Num (lo + real k)"
        "bestError = total_error rels (Num (lo + real k))"
        "\<forall>j<n. \<not> total_error rels (Num (lo + real j)) < bestError"
        and last: "lo + real n - 1 \<le> hi"
      by auto
    have r: "search_loop rels minElo maxElo testElo bestError bestTestElo = Num (lo + real k)"
      using False k(2) by (subst search_loop.simps) simp
    have "lo + real k \<le> hi"
      using k(1) last by (simp add: algebra_simps)
    moreover have "\<not> total_error rels (Num (lo + real j)) < total_error rels (Num (lo + real k))"
      if "lo + real j \<le> hi" for j
    proof -
      from that over have "j < n" by simp
      then show ?thesis using k(3,4) by simp
    qed
    ultimately show ?thesis
      using r by blast
  next
    case True
    then have le: "lo + real n \<le> hi"
      by (simp add: m)
    have next_t: "testElo + 1 = Num (lo + real (Suc n))"
      by (simp add: m add.assoc)
    have first: "num_eq testElo minElo \<longleftrightarrow> n = 0"
      by (simp add: m)
    show ?thesis
    proof (cases "num_eq testElo minElo \<or> ?e < bestError")
      case improve: True
      have inv: "Suc n = 0 \<or> (lo + real (Suc n) - 1 \<le> hi \<and> (\<exists>k<Suc n. testElo = Num (lo + real k) \<and>
           ?e = total_error rels (Num (lo + real k)) \<and>
           (\<forall>j<Suc n. \<not> total_error rels (Num (lo + real j)) < ?e)))"
      proof -
        have "\<not> total_error rels (Num (lo + real j)) < ?e" if "j < Suc n" for j
        proof (cases "j = n")
          case True
          then show ?thesis by (simp add: m not_less_self)
        next
          case False
          with that have jn: "j < n" by simp
          then have "n \<noteq> 0" by simp
          with improve first have lt: "?e < bestError" by simp
          from \<open>n \<noteq> 0\<close> 1(7) jn have "\<not> total_error rels (Num (lo + real j)) < bestError"
            by auto
          then show ?thesis
            using lt by (rule not_less_after_improvement)
        qed
        then show ?thesis
          using le m by auto
      qed
      have "search_loop rels minElo maxElo testElo bestError bestTestElo =
            search_loop rels minElo maxElo (testElo + 1) ?e testElo"
        using True improve by (subst search_loop.simps) (simp add: Let_def)
      moreover have "\<exists>k. search_loop rels minElo maxElo (testElo + 1) ?e testElo = Num (lo + real k) \<and>
           lo + real k \<le> hi \<and>
           (\<forall>j. lo + real j \<le> hi \<longrightarrow>
              \<not> total_error rels (Num (lo + real j)) < total_error rels (Num (lo + real k)))"
        using "1.IH"(1) [OF True refl improve m(1,2) next_t \<open>lo \<le> hi\<close> inv] .
      ultimately show ?thesis by simp
    next
      case keep: False
      with first have "n \<noteq> 0" by auto
      with 1(7) obtain k where k: "k < n" "bestTestElo = Num (lo + real k)"
        "bestError = total_error rels (Num (lo + real k))"
        "\<forall>j<n. \<not> total_error rels (Num (lo + real j)) < bestError"
        by auto
      have inv: "Suc n = 0 \<or> (lo + real (Suc n) - 1 \<le> hi \<and> (\<exists>k<Suc n. bestTestElo = Num (lo + real k) \<and>
           bestError = total_error rels (Num (lo + real k)) \<and>
           (\<forall>j<Suc n. \<not> total_error rels (Num (lo + real j)) < bestError)))"
      proof -
        have "\<not> total_error rels (Num (lo + real j)) < bestError" if "j < Suc n" for j
        proof (cases "j = n")
          case True
          then show ?thesis using keep by (simp add: m)
        next
          case False
          with that have "j < n" by simp
          then show ?thesis using k(4) by simp
        qed
        moreover have "k < Suc n" using k(1) by simp
        ultimately show ?thesis
          using le k(2,3) by auto
      qed
      have "search_loop rels minElo maxElo testElo bestError bestTestElo =
            search_loop rels minElo maxElo (testElo + 1) bestError bestTestElo"
        using True keep by (subst search_loop.simps) (simp add: Let_def)
      moreover have "\<exists>k. search_loop rels minElo maxElo (testElo + 1) bestError bestTestElo = Num (lo + real k) \<and>
           lo + real k \<le> hi \<and>
           (\<forall>j. lo + real j \<le> hi \<longrightarrow>
              \<not> total_error rels (Num (lo + real j)) < total_error rels (Num (lo + real k)))"
        using "1.IH"(2) [OF True refl keep m(1,2) next_t \<open>lo \<le> hi\<close> inv] .
      ultimately show ?thesis by simp
    qed
  qed
qed

lemma bounds_body_ordered:
  "ordered_bounds b \<Longrightarrow> ordered_bounds (bounds_body rels r b)"
  by (cases b; cases "op r"; cases "value (rels ! 1)"; cases "fst b"; cases "snd b")
     (auto simp: ordered_bounds_def bounds_body_def)

lemma fold_bounds_body_ordered:
  "ordered_bounds b \<Longrightarrow> ordered_bounds (fold (bounds_body rels) rs b)"
  by (induction rs arbitrary: b) (simp_all add: bounds_body_ordered)

lemma elo_bounds_window:
  assumes "elo_bounds rels = (Num lo, Num hi)"
  shows "lo + 2 \<le> hi"
proof -
  obtain mn mx where f: "fold (bounds_body rels) (tl rels) (value (hd rels), value (hd rels)) = (mn, mx)"
    by (cases "fold (bounds_body rels) (tl rels) (value (hd rels), value (hd rels))")
  have "ordered_bounds (value (hd rels), value (hd rels))"
    by (cases "value (hd rels)") (simp_all add: ordered_bounds_def)
  then have o: "ordered_bounds (mn, mx)"
    using fold_bounds_body_ordered [of "(value (hd rels), value (hd rels))" rels "tl rels"] f by simp
  from assms f have "mn - 1 = Num lo" "mx + 1 = Num hi"
    by (simp_all add: elo_bounds_def)
  then obtain a b where ab: "mn = Num a" "mx = Num b" "lo = a - 1" "hi = b + 1"
    by (cases mn; cases mx) auto
  with o show ?thesis
    by (simp add: ordered_bounds_def)
qed

lemma estimateElo_best_of_scan:
  assumes "eloRelations item \<noteq> []" and "elo_bounds (eloRelations item) = (Num lo, Num hi)"
  shows "\<exists>k. estimateElo item = Num (lo + real k) \<and> lo + real k \<le> hi \<and>
           (\<forall>j. lo + real j \<le> hi \<longrightarrow>
              \<not> total_error (eloRelations item) (Num (lo + real j))
                  < total_error (eloRelations item) (Num (lo + real k)))"
proof -
  have le: "lo \<le> hi"
    using elo_bounds_window [OF assms(2)] by simp
  have e: "estimateElo item = search_loop (eloRelations item) (Num lo) (Num hi) (Num lo) 0 0"
    using assms by (simp add: estimateElo_def)
  show ?thesis
    unfolding e
    by (rule search_loop_best [where n = 0]) (simp_all add: le)
qed

lemma estimateElo_best_integer_of_scan:
  assumes "eloRelations item \<noteq> []" and "elo_bounds (eloRelations item) = (Num lo, Num hi)"
    and "lo \<in> \<int>"
  shows "\<exists>z \<in> \<int>. estimateElo item = Num z \<and> lo \<le> z \<and> z \<le> hi \<and>
           (\<forall>x \<in> \<int>. lo \<le> x \<and> x \<le> hi \<longrightarrow>
              \<not> total_error (eloRelations item) (Num x) < total_error (eloRelations item) (Num z))"
proof -
  from estimateElo_best_of_scan [OF assms(1,2)] obtain k where k:
    "estimateElo item = Num (lo + real k)" "lo + real k \<le> hi"
    "\<forall>j. lo + real j \<le> hi \<longrightarrow>
        \<not> total_error (eloRelations item) (Num (lo + real j))
            < total_error (eloRelations item) (Num (lo + real k))"
    by blast
  have "\<not> total_error (eloRelations item) (Num x) < total_error (eloRelations item) (Num (lo + real k))"
    if "x \<in> \<int>" "lo \<le> x" "x \<le> hi" for x
  proof -
    from that(1) assms(3) have "x - lo \<in> \<int>" by simp
    then obtain i :: int where i: "x - lo = of_int i" by (rule Ints_cases)
    with that(2) have "0 \<le> i" by simp
    then obtain j :: nat where "i = int j" using nonneg_int_cases by blast
    with i have "x = lo + real j" by simp
    with that(3) k(3) show ?thesis by simp
  qed
  moreover have "lo + real k \<in> \<int>"
    using assms(3) by simp
  ultimately show ?thesis
    using k(1,2) by (intro bexI [of _ "lo + real k"]) auto
qed

section \<open>The item parser\<close>

lemma not_line_terminator_parens [simp]:
  "\<not> is_line_terminator CHR ''(''" "\<not> is_line_terminator CHR '')''"
  by (simp_all add: is_line_terminator_def)

text \<open>
  \<open>relationsMatch\<close> against the pattern: a string matches exactly when it reads as a
  non-empty text, an opening parenthesis, a text and a final closing parenthesis, with no
  line terminator; among these readings the match takes the one with the longest first
  part, which is the one whose second part holds no opening parenthesis.
\<close>

lemma relationsMatch_decomposed:
  assumes "t \<noteq> []" and "CHR ''('' \<notin> set r"
    and "list_all (\<lambda>c. \<not> is_line_terminator c) (t @ r)"
  shows "relationsMatch (t @ ''('' @ r @ '')'') = Some (t, r)"
proof -
  let ?s = "t @ ''('' @ r @ '')''"
  have b: "rev (butlast ?s) = rev r @ CHR ''('' # rev t"
    by (simp add: butlast_append)
  have d: "dropWhile (\<lambda>c. c \<noteq> CHR ''('') (rev r @ CHR ''('' # rev t) = CHR ''('' # rev t"
    using assms(2) by (auto simp: dropWhile_append3)
  have "takeWhile (\<lambda>c. c \<noteq> CHR ''('') (rev r @ CHR ''('' # rev t) =
      rev r @ takeWhile (\<lambda>c. c \<noteq> CHR ''('') (CHR ''('' # rev t)"
    using assms(2) by (intro takeWhile_append2) auto
  then have k: "takeWhile (\<lambda>c. c \<noteq> CHR ''('') (rev r @ CHR ''('' # rev t) = rev r"
    by simp
  have l: "list_all (\<lambda>c. \<not> is_line_terminator c) ?s"
    using assms(3) by simp
  have "relationsMatch ?s =
      (case dropWhile (\<lambda>c. c \<noteq> CHR ''('') (rev (butlast ?s)) of
           [] \<Rightarrow> None
         | p # t \<Rightarrow>
             if t = [] then None
             else Some (rev t, rev (takeWhile (\<lambda>c. c \<noteq> CHR ''('') (rev (butlast ?s)))))"
    unfolding relationsMatch_def using l by simp
  also have "\<dots> = Some (t, r)"
    unfolding b d k using assms(1) by simp
  finally show ?thesis .
qed

lemma relationsMatch_Some:
  assumes "relationsMatch s = Some (t, r)"
  shows "s = t @ ''('' @ r @ '')'' \<and> t \<noteq> [] \<and> CHR ''('' \<notin> set r \<and>
         list_all (\<lambda>c. \<not> is_line_terminator c) s"
proof -
  from assms have s: "s \<noteq> []" "last s = CHR '')''" "list_all (\<lambda>c. \<not> is_line_terminator c) s"
    by (auto simp: relationsMatch_def split: if_splits)
  let ?b = "rev (butlast s)"
  from assms s obtain p where d: "dropWhile (\<lambda>c. c \<noteq> CHR ''('') ?b = p # rev t" and "t \<noteq> []"
    and r: "r = rev (takeWhile (\<lambda>c. c \<noteq> CHR ''('') ?b)"
    by (auto simp: relationsMatch_def split: if_splits list.splits)
  have p: "p = CHR ''(''"
    using hd_dropWhile [of "\<lambda>c. c \<noteq> CHR ''(''" ?b] d by simp
  have "?b = takeWhile (\<lambda>c. c \<noteq> CHR ''('') ?b @ dropWhile (\<lambda>c. c \<noteq> CHR ''('') ?b"
    by simp
  then have "?b = rev r @ CHR ''('' # rev t"
    using d p r by simp
  then have "butlast s = t @ CHR ''('' # r"
    by (metis rev_append rev_rev_ident rev.simps(2) append.assoc append_Cons append_Nil)
  moreover have "s = butlast s @ [last s]"
    using s(1) by simp
  ultimately have "s = t @ ''('' @ r @ '')''"
    using s(2) by simp
  moreover have "CHR ''('' \<notin> set r"
    using r set_takeWhileD [of "CHR ''(''" "\<lambda>c. c \<noteq> CHR ''(''" ?b] by auto
  ultimately show ?thesis
    using \<open>t \<noteq> []\<close> s(3) by blast
qed

text \<open>
  The first group is the longest one: any other way to read the string as a non-empty text,
  an opening parenthesis, a text and a final closing parenthesis has a first part that is
  not longer.
\<close>

lemma relationsMatch_greedy:
  assumes "s = a @ ''('' @ b @ '')''" and "a \<noteq> []"
    and "list_all (\<lambda>c. \<not> is_line_terminator c) s"
  shows "\<exists>t r. relationsMatch s = Some (t, r) \<and> length a \<le> length t"
proof -
  let ?P = "\<lambda>c. c \<noteq> CHR ''(''"
  define r where "r = rev (takeWhile ?P (rev b))"
  define m where "m = rev (dropWhile ?P (rev b))"
  have b: "b = m @ r"
    unfolding r_def m_def by (metis rev_append rev_rev_ident takeWhile_dropWhile_id)
  have nr: "CHR ''('' \<notin> set r"
    unfolding r_def using set_takeWhileD [of "CHR ''(''" ?P "rev b"] by auto
  show ?thesis
  proof (cases "m = []")
    case True
    then have "s = a @ ''('' @ r @ '')''"
      using assms(1) b by simp
    moreover have "list_all (\<lambda>c. \<not> is_line_terminator c) (a @ r)"
      using assms(3) calculation by simp
    ultimately have "relationsMatch s = Some (a, r)"
      using relationsMatch_decomposed [OF assms(2) nr] by simp
    then show ?thesis by simp
  next
    case False
    then have "dropWhile ?P (rev b) \<noteq> []"
      unfolding m_def by simp
    then have "hd (dropWhile ?P (rev b)) = CHR ''(''"
      using hd_dropWhile [of ?P "rev b"] by simp
    then have "last m = CHR ''(''"
      unfolding m_def using \<open>dropWhile ?P (rev b) \<noteq> []\<close> by (simp add: last_rev)
    then have m: "m = butlast m @ ''(''"
      using False by (metis append_butlast_last_id)
    let ?t = "a @ ''('' @ butlast m"
    have "s = ?t @ ''('' @ r @ '')''"
      using assms(1) b m by (metis append.assoc)
    moreover have "list_all (\<lambda>c. \<not> is_line_terminator c) (?t @ r)"
      using assms(3) calculation by simp
    moreover have "?t \<noteq> []"
      using assms(2) by simp
    ultimately have "relationsMatch s = Some (?t, r)"
      using relationsMatch_decomposed [of ?t r] nr by simp
    then show ?thesis by simp
  qed
qed

text \<open>
  Claim C4, amended.  For every line that reads as a non-empty text \<open>t\<close>, an opening
  parenthesis, a text \<open>r\<close> with no opening parenthesis in it and a final closing
  parenthesis, and that holds no line terminator, the item parser sets the title to \<open>t\<close>
  trimmed and parses each comma-separated token of \<open>r\<close> as a relation.  So the title is
  the text before the last opening parenthesis of the line, the one that opens the
  trailing group, not the text before the first.
\<close>

theorem parseEloItem_trailing_group:
  assumes "t \<noteq> []" and "CHR ''('' \<notin> set r"
    and "list_all (\<lambda>c. \<not> is_line_terminator c) (t @ r)"
  shows "title (parseEloItem (t @ ''('' @ r @ '')'')) = trim t \<and>
         eloRelations (parseEloItem (t @ ''('' @ r @ '')'')) = map parseEloRelation (split_comma r)"
  using relationsMatch_decomposed [OF assms] by (simp add: parseEloItem_def Let_def)

theorem parseEloItem_trailing_group_witness:
  "''A (x) '' \<noteq> [] \<and> CHR ''('' \<notin> set ''5'' \<and>
   list_all (\<lambda>c. \<not> is_line_terminator c) (''A (x) '' @ ''5'') \<and>
   title (parseEloItem ''A (x) (5)'') = ''A (x)'' \<and>
   eloRelations (parseEloItem ''A (x) (5)'') = [\<lparr>op = eq, value = Num 5\<rparr>]"
proof -
  have h: "''A (x) '' \<noteq> []" "CHR ''('' \<notin> set ''5''"
    "list_all (\<lambda>c. \<not> is_line_terminator c) (''A (x) '' @ ''5'')"
    by (simp_all add: is_line_terminator_def)
  have "trim ''A (x) '' = ''A (x)''"
    by (simp add: trim_def is_white_space_def)
  moreover have "map parseEloRelation (split_comma ''5'') = [\<lparr>op = eq, value = Num 5\<rparr>]"
    by (simp add: parse_defs)
  ultimately show ?thesis
    using h parseEloItem_trailing_group [OF h] by simp
qed

text \<open>
  Claim C4 as stated fails on the line \<^verbatim>\<open>A (x) (5)\<close>, which ends with the parenthesized
  group \<^verbatim>\<open>(5)\<close>: the title the parser gives is \<^verbatim>\<open>A (x)\<close>, and the text before the first
  opening parenthesis, trimmed, is \<^verbatim>\<open>A\<close>.
\<close>

theorem title_not_before_first_parenthesis:
  "title (parseEloItem ''A (x) (5)'') = ''A (x)'' \<and> spec_title ''A (x) (5)'' = ''A'' \<and>
   title (parseEloItem ''A (x) (5)'') \<noteq> spec_title ''A (x) (5)''"
  by (simp add: parse_defs spec_title_def)

section \<open>The store\<close>

lemmas store_defs =
  read_item_def set_estimatedElo_def set_eloRelations_def new_array_def array_push_def
  new_object_def copy_item_def store_item_def


lemma pA_Num:
  "estimatedElo a = Num x \<Longrightarrow> estimatedElo b = Num y \<Longrightarrow>
   pA a b = Num (1 / (1 + 10 powr ((y - x) / 400)))"
proof -
  assume a: "estimatedElo a = Num x" and b: "estimatedElo b = Num y"
  have "0 < 1 + (10::real) powr ((y - x) / 400)"
    by (simp add: add_pos_nonneg)
  then have "1 + (10::real) powr ((y - x) / 400) \<noteq> 0"
    by simp
  then show ?thesis
    by (simp add: pA_def a b)
qed

text \<open>
  What the two operations do to an object other than the bound item, when the array of
  that object has been allocated.
\<close>

lemma frame_win:
  assumes "eloRelations (objects st c) < next_array st" and "c \<noteq> bound_item u"
  shows "read_item (afterWinAgainst u opponent st) c =
           (if \<not> isDefinite u \<and> eloRelations (objects st c) = eloRelations (objects st (bound_item u))
            then (read_item st c)\<lparr>eloRelations := eloRelations (read_item st c) @
                   [\<lparr>op = gt, value = estimatedElo (read_item st opponent) -
                        32 * pA (read_item st opponent) (read_item st (bound_item u))\<rparr>]\<rparr>
            else read_item st c)"
  using assms
  by (simp add: afterWinAgainst_def collapse_def Let_def store_defs)

lemma frame_loss:
  assumes "eloRelations (objects st c) < next_array st" and "c \<noteq> bound_item u"
  shows "read_item (afterLossAgainst u opponent st) c =
           (if \<not> isDefinite u \<and> eloRelations (objects st c) = eloRelations (objects st (bound_item u))
            then (read_item st c)\<lparr>eloRelations := eloRelations (read_item st c) @
                   [\<lparr>op = lt, value = estimatedElo (read_item st opponent) +
                        32 * (1 - pA (read_item st opponent) (read_item st (bound_item u)))\<rparr>]\<rparr>
            else read_item st c)"
  using assms
  by (simp add: afterLossAgainst_def collapse_def Let_def store_defs)

text \<open>Every store the program can build is well formed.\<close>

lemma afterWinAgainst_well_formed:
  assumes "well_formed st"
  shows "well_formed (afterWinAgainst u b st)"
proof -
  have r: "eloRelations (objects st c) < next_array st" if "c < next_object st" for c
    using assms(1) that by (simp add: well_formed_def)
  show ?thesis
    using r
    by (auto simp: well_formed_def afterWinAgainst_def collapse_def Let_def store_defs less_Suc_eq)
qed

lemma afterLossAgainst_well_formed:
  assumes "well_formed st"
  shows "well_formed (afterLossAgainst u b st)"
proof -
  have r: "eloRelations (objects st c) < next_array st" if "c < next_object st" for c
    using assms(1) that by (simp add: well_formed_def)
  show ?thesis
    using r
    by (auto simp: well_formed_def afterLossAgainst_def collapse_def Let_def store_defs less_Suc_eq)
qed

lemma reachable_well_formed: "reachable st \<Longrightarrow> well_formed st"
proof (induction rule: reachable.induct)
  case reachable_empty
  show ?case by (simp add: well_formed_def empty_store_def)
next
  case (reachable_parse st s)
  then show ?case
    by (auto simp: well_formed_def store_defs less_Suc_eq)
next
  case (reachable_copy st a)
  then show ?case
    by (auto simp: well_formed_def store_defs less_Suc_eq)
next
  case (reachable_win st u b)
  then show ?case
    by (simp add: afterWinAgainst_well_formed)
next
  case (reachable_loss st u b)
  then show ?case
    by (simp add: afterLossAgainst_well_formed)
qed

section \<open>The example stores\<close>

lemma parse_examples:
  "parseEloItem ''Alice (650)'' =
     \<lparr>title = ''Alice'', estimatedElo = Num 650, eloRelations = [\<lparr>op = eq, value = Num 650\<rparr>]\<rparr>"
  "parseEloItem ''Bob (600)'' =
     \<lparr>title = ''Bob'', estimatedElo = Num 600, eloRelations = [\<lparr>op = eq, value = Num 600\<rparr>]\<rparr>"
  "parseEloItem ''Carol'' = \<lparr>title = ''Carol'', estimatedElo = Num 600, eloRelations = []\<rparr>"
  by (simp_all add: estimate_defs parse_defs DEFAULT_ELO_def)

lemma example_store_objects:
  "objects example_store 0 = \<lparr>title = ''Alice'', estimatedElo = Num 650, eloRelations = 0\<rparr>"
  "objects example_store 1 = \<lparr>title = ''Bob'', estimatedElo = Num 600, eloRelations = 1\<rparr>"
  "objects example_store 2 = \<lparr>title = ''Carol'', estimatedElo = Num 600, eloRelations = 2\<rparr>"
  "arrays example_store 0 = [\<lparr>op = eq, value = Num 650\<rparr>]"
  "arrays example_store 1 = [\<lparr>op = eq, value = Num 600\<rparr>]"
  "arrays example_store 2 = []"
  "next_object example_store = 3" "next_array example_store = 3"
  by (simp_all add: example_store_def parse_examples store_defs empty_store_def)

lemma example_store_objects_Suc:
  "objects example_store (Suc 0) = \<lparr>title = ''Bob'', estimatedElo = Num 600, eloRelations = 1\<rparr>"
  "objects example_store (Suc (Suc 0)) = \<lparr>title = ''Carol'', estimatedElo = Num 600, eloRelations = 2\<rparr>"
  "arrays example_store (Suc 0) = [\<lparr>op = eq, value = Num 600\<rparr>]"
  "arrays example_store (Suc (Suc 0)) = []"
  using example_store_objects by (simp_all add: numeral_2_eq_2)

lemma example_store_items:
  "read_item example_store 0 =
     \<lparr>title = ''Alice'', estimatedElo = Num 650, eloRelations = [\<lparr>op = eq, value = Num 650\<rparr>]\<rparr>"
  "read_item example_store 1 =
     \<lparr>title = ''Bob'', estimatedElo = Num 600, eloRelations = [\<lparr>op = eq, value = Num 600\<rparr>]\<rparr>"
  "read_item example_store 2 = \<lparr>title = ''Carol'', estimatedElo = Num 600, eloRelations = []\<rparr>"
  "read_item example_store (Suc 0) =
     \<lparr>title = ''Bob'', estimatedElo = Num 600, eloRelations = [\<lparr>op = eq, value = Num 600\<rparr>]\<rparr>"
  by (simp_all add: read_item_def example_store_objects example_store_objects_Suc)

lemma example_store_reachable: "reachable example_store"
  unfolding example_store_def
  by (intro reachable_parse reachable_empty)

lemma example_store_well_formed: "well_formed example_store"
  by (simp add: well_formed_def example_store_objects example_store_objects_Suc less_Suc_eq numeral_3_eq_3)

lemma copied_store_objects:
  "objects copied_store 0 = \<lparr>title = ''Alice'', estimatedElo = Num 650, eloRelations = 0\<rparr>"
  "objects copied_store 2 = \<lparr>title = ''Carol'', estimatedElo = Num 600, eloRelations = 2\<rparr>"
  "objects copied_store 3 = \<lparr>title = ''Carol'', estimatedElo = Num 600, eloRelations = 2\<rparr>"
  "arrays copied_store 0 = [\<lparr>op = eq, value = Num 650\<rparr>]"
  "arrays copied_store 2 = []"
  by (simp_all add: copied_store_def store_defs example_store_objects)


lemma copied_store_more:
  "objects copied_store (Suc 0) = \<lparr>title = ''Bob'', estimatedElo = Num 600, eloRelations = 1\<rparr>"
  "arrays copied_store (Suc 0) = [\<lparr>op = eq, value = Num 600\<rparr>]"
  "next_object copied_store = 4" "next_array copied_store = 3"
  by (simp_all add: copied_store_def store_defs example_store_objects example_store_objects_Suc)

lemma copied_store_items:
  "read_item copied_store 0 =
     \<lparr>title = ''Alice'', estimatedElo = Num 650, eloRelations = [\<lparr>op = eq, value = Num 650\<rparr>]\<rparr>"
  "read_item copied_store (Suc 0) =
     \<lparr>title = ''Bob'', estimatedElo = Num 600, eloRelations = [\<lparr>op = eq, value = Num 600\<rparr>]\<rparr>"
  "read_item copied_store 2 = \<lparr>title = ''Carol'', estimatedElo = Num 600, eloRelations = []\<rparr>"
  "read_item copied_store 3 = \<lparr>title = ''Carol'', estimatedElo = Num 600, eloRelations = []\<rparr>"
  by (simp_all add: read_item_def copied_store_objects copied_store_more)

lemma copied_store_updaters:
  "updateRating copied_store 3 = \<lparr>bound_item = 3, isDefinite = False\<rparr>"
  "updateRating copied_store 0 = \<lparr>bound_item = 0, isDefinite = True\<rparr>"
  by (simp_all add: updateRating_def copied_store_items)

lemma copied_store_reachable: "reachable copied_store"
  unfolding copied_store_def
  by (rule reachable_copy [OF example_store_reachable]) (simp add: example_store_objects)

lemma copied_store_well_formed: "well_formed copied_store"
  using copied_store_reachable by (rule reachable_well_formed)

section \<open>Updates of a settled item\<close>

lemma afterWinAgainst_definite:
  assumes "isDefinite u" and "bound_item u = item"
  shows "read_item (afterWinAgainst u opponent st) item =
           \<lparr>title = title (read_item st item),
            estimatedElo = estimatedElo (read_item st item) + 32 * (1 - pA (read_item st item) (read_item st opponent)),
            eloRelations = [\<lparr>op = eq, value = estimatedElo (read_item st item) +
               32 * (1 - pA (read_item st item) (read_item st opponent))\<rparr>]\<rparr>"
  using assms by (simp add: afterWinAgainst_def Let_def store_defs)

lemma afterLossAgainst_definite:
  assumes "isDefinite u" and "bound_item u = item"
  shows "read_item (afterLossAgainst u opponent st) item =
           \<lparr>title = title (read_item st item),
            estimatedElo = estimatedElo (read_item st item) - 32 * pA (read_item st item) (read_item st opponent),
            eloRelations = [\<lparr>op = eq, value = estimatedElo (read_item st item) -
               32 * pA (read_item st item) (read_item st opponent)\<rparr>]\<rparr>"
  using assms by (simp add: afterLossAgainst_def Let_def store_defs)

text \<open>
  Claim C6.  For every settled item (exactly one relation, of kind \<open>Equal\<close>) and every
  opponent, \<^verbatim>\<open>afterWinAgainst\<close> sets the strength of the item to
  \<open>old + 32 * (1 - P)\<close> and \<^verbatim>\<open>afterLossAgainst\<close> sets it to \<open>old - 32 * P\<close>, where
  \<open>P = 1 / (1 + 10 ^ ((opponent's strength - old) / 400))\<close> is computed from the
  strengths of both items before the update; the relation list becomes a single
  \<open>Equal\<close> relation that holds the new strength, and the title is kept.  The first two
  parts state this with the operators of the host language (so also when a strength is
  \<open>NaN\<close>), the third with real numbers.
\<close>

theorem settled_update:
  assumes "eloRelations (read_item st item) = [r]" and "op r = eq"
  shows "read_item (afterWinAgainst (updateRating st item) opponent st) item =
           \<lparr>title = title (read_item st item),
            estimatedElo = estimatedElo (read_item st item) +
               32 * (1 - 1 / (1 + Math_pow 10 ((estimatedElo (read_item st opponent) - estimatedElo (read_item st item)) / 400))),
            eloRelations = [\<lparr>op = eq, value = estimatedElo (read_item st item) +
               32 * (1 - 1 / (1 + Math_pow 10 ((estimatedElo (read_item st opponent) - estimatedElo (read_item st item)) / 400)))\<rparr>]\<rparr> \<and>
         read_item (afterLossAgainst (updateRating st item) opponent st) item =
           \<lparr>title = title (read_item st item),
            estimatedElo = estimatedElo (read_item st item) -
               32 * (1 / (1 + Math_pow 10 ((estimatedElo (read_item st opponent) - estimatedElo (read_item st item)) / 400))),
            eloRelations = [\<lparr>op = eq, value = estimatedElo (read_item st item) -
               32 * (1 / (1 + Math_pow 10 ((estimatedElo (read_item st opponent) - estimatedElo (read_item st item)) / 400)))\<rparr>]\<rparr> \<and>
         (\<forall>x y. estimatedElo (read_item st item) = Num x \<and> estimatedElo (read_item st opponent) = Num y \<longrightarrow>
            estimatedElo (read_item (afterWinAgainst (updateRating st item) opponent st) item) =
              Num (x + 32 * (1 - 1 / (1 + 10 powr ((y - x) / 400)))) \<and>
            estimatedElo (read_item (afterLossAgainst (updateRating st item) opponent st) item) =
              Num (x - 32 * (1 / (1 + 10 powr ((y - x) / 400)))))"
proof -
  have d: "isDefinite (updateRating st item)" "bound_item (updateRating st item) = item"
    using assms by (simp_all add: updateRating_def)
  have w: "read_item (afterWinAgainst (updateRating st item) opponent st) item =
           \<lparr>title = title (read_item st item),
            estimatedElo = estimatedElo (read_item st item) + 32 * (1 - pA (read_item st item) (read_item st opponent)),
            eloRelations = [\<lparr>op = eq, value = estimatedElo (read_item st item) +
               32 * (1 - pA (read_item st item) (read_item st opponent))\<rparr>]\<rparr>"
    using d by (rule afterWinAgainst_definite)
  have l: "read_item (afterLossAgainst (updateRating st item) opponent st) item =
           \<lparr>title = title (read_item st item),
            estimatedElo = estimatedElo (read_item st item) - 32 * pA (read_item st item) (read_item st opponent),
            eloRelations = [\<lparr>op = eq, value = estimatedElo (read_item st item) -
               32 * pA (read_item st item) (read_item st opponent)\<rparr>]\<rparr>"
    using d by (rule afterLossAgainst_definite)
  have r: "estimatedElo (read_item (afterWinAgainst (updateRating st item) opponent st) item) =
              Num (x + 32 * (1 - 1 / (1 + 10 powr ((y - x) / 400)))) \<and>
            estimatedElo (read_item (afterLossAgainst (updateRating st item) opponent st) item) =
              Num (x - 32 * (1 / (1 + 10 powr ((y - x) / 400))))"
    if "estimatedElo (read_item st item) = Num x" "estimatedElo (read_item st opponent) = Num y" for x y
    using pA_Num [OF that] that by (simp add: w l)
  show ?thesis
    using w l r unfolding pA_def by simp
qed


theorem settled_update_witness:
  "eloRelations (read_item example_store 0) = [\<lparr>op = eq, value = Num 650\<rparr>] \<and>
   op \<lparr>op = eq, value = Num 650\<rparr> = eq \<and>
   estimatedElo (read_item (afterWinAgainst (updateRating example_store 0) 1 example_store) 0) =
     Num (650 + 32 * (1 - 1 / (1 + 10 powr ((600 - 650) / 400)))) \<and>
   eloRelations (read_item (afterWinAgainst (updateRating example_store 0) 1 example_store) 0) =
     [\<lparr>op = eq, value = Num (650 + 32 * (1 - 1 / (1 + 10 powr ((600 - 650) / 400))))\<rparr>] \<and>
   estimatedElo (read_item (afterLossAgainst (updateRating example_store 0) 1 example_store) 0) =
     Num (650 - 32 * (1 / (1 + 10 powr ((600 - 650) / 400))))"
proof -
  have h: "eloRelations (read_item example_store 0) = [\<lparr>op = eq, value = Num 650\<rparr>]"
    "op \<lparr>op = eq, value = Num 650\<rparr> = eq"
    by (simp_all add: example_store_items)
  have e: "estimatedElo (read_item example_store 0) = Num 650 \<and>
           estimatedElo (read_item example_store 1) = Num 600"
    by (simp add: example_store_items)
  from settled_update [OF h, of 1]
  have w: "read_item (afterWinAgainst (updateRating example_store 0) 1 example_store) 0 =
           \<lparr>title = title (read_item example_store 0),
            estimatedElo = estimatedElo (read_item example_store 0) +
               32 * (1 - 1 / (1 + Math_pow 10 ((estimatedElo (read_item example_store 1) - estimatedElo (read_item example_store 0)) / 400))),
            eloRelations = [\<lparr>op = eq, value = estimatedElo (read_item example_store 0) +
               32 * (1 - 1 / (1 + Math_pow 10 ((estimatedElo (read_item example_store 1) - estimatedElo (read_item example_store 0)) / 400)))\<rparr>]\<rparr>"
    and r: "\<forall>x y. estimatedElo (read_item example_store 0) = Num x \<and> estimatedElo (read_item example_store 1) = Num y \<longrightarrow>
            estimatedElo (read_item (afterWinAgainst (updateRating example_store 0) 1 example_store) 0) =
              Num (x + 32 * (1 - 1 / (1 + 10 powr ((y - x) / 400)))) \<and>
            estimatedElo (read_item (afterLossAgainst (updateRating example_store 0) 1 example_store) 0) =
              Num (x - 32 * (1 / (1 + 10 powr ((y - x) / 400))))"
    by blast+
  from r e have n: "estimatedElo (read_item (afterWinAgainst (updateRating example_store 0) 1 example_store) 0) =
              Num (650 + 32 * (1 - 1 / (1 + 10 powr ((600 - 650) / 400))))"
    "estimatedElo (read_item (afterLossAgainst (updateRating example_store 0) 1 example_store) 0) =
              Num (650 - 32 * (1 / (1 + 10 powr ((600 - 650) / 400))))"
    by blast+
  have "eloRelations (read_item (afterWinAgainst (updateRating example_store 0) 1 example_store) 0) =
     [\<lparr>op = eq, value = estimatedElo (read_item (afterWinAgainst (updateRating example_store 0) 1 example_store) 0)\<rparr>]"
    by (subst (1 2) w) simp
  then show ?thesis
    using h n by simp
qed

section \<open>Incubation\<close>

text \<open>What one update does to the relation list of the item.\<close>

lemma update_item_definite:
  assumes "eloRelations (read_item st item) = [r]" and "op r = eq"
  shows "\<exists>e. eloRelations (read_item (update_item item u st) item) = [\<lparr>op = eq, value = e\<rparr>]"
proof -
  have d: "isDefinite (updateRating st item)" "bound_item (updateRating st item) = item"
    using assms by (simp_all add: updateRating_def)
  obtain w b where u: "u = (w, b)" by (cases u)
  show ?thesis
    by (cases w) (simp_all add: u update_item_def afterWinAgainst_def afterLossAgainst_def d Let_def store_defs)
qed

lemma update_item_incubating:
  assumes "\<not> (length (eloRelations (read_item st item)) = 1 \<and> op (eloRelations (read_item st item) ! 0) = eq)"
  shows "\<exists>x e. op x \<noteq> eq \<and>
           eloRelations (read_item (update_item item u st) item) =
             (if length (eloRelations (read_item st item)) + 1 > ITEM_INCUBATION_TIME
              then [\<lparr>op = eq, value = e\<rparr>]
              else eloRelations (read_item st item) @ [x])"
proof -
  have d: "\<not> isDefinite (updateRating st item)" "bound_item (updateRating st item) = item"
    using assms by (simp_all add: updateRating_def)
  obtain w b where u: "u = (w, b)" by (cases u)
  show ?thesis
  proof (cases w)
    case Win
    show ?thesis
      apply (rule exI [of _ "\<lparr>op = gt, value = estimatedElo (read_item st b) - 32 * pA (read_item st b) (read_item st item)\<rparr>"])
      apply (simp add: u Win update_item_def afterWinAgainst_def d Let_def collapse_def store_defs)
      done
  next
    case Loss
    show ?thesis
      apply (rule exI [of _ "\<lparr>op = lt, value = estimatedElo (read_item st b) + 32 * (1 - pA (read_item st b) (read_item st item))\<rparr>"])
      apply (simp add: u Loss update_item_def afterLossAgainst_def d Let_def collapse_def store_defs)
      done
  qed
qed

lemma incubating_step:
  assumes "incubating k (eloRelations (read_item st item))" and "k < ITEM_INCUBATION_TIME"
  shows "incubating (Suc k) (eloRelations (read_item (update_item item u st) item))"
proof -
  let ?rels = "eloRelations (read_item st item)"
  have n: "\<not> (length ?rels = 1 \<and> op (?rels ! 0) = eq)"
    using assms(1) by (auto simp: incubating_def)
  from update_item_incubating [OF n, of u] obtain x where x: "op x \<noteq> eq"
    and r: "eloRelations (read_item (update_item item u st) item) = ?rels @ [x]"
    using assms by (auto simp: incubating_def)
  show ?thesis
    using assms(1) x unfolding r incubating_def by (cases ?rels) auto
qed

lemma incubating_collapse:
  assumes "incubating ITEM_INCUBATION_TIME (eloRelations (read_item st item))"
  shows "\<exists>e. eloRelations (read_item (update_item item u st) item) = [\<lparr>op = eq, value = e\<rparr>]"
proof -
  let ?rels = "eloRelations (read_item st item)"
  have n: "\<not> (length ?rels = 1 \<and> op (?rels ! 0) = eq)"
    using assms(1) by (auto simp: incubating_def ITEM_INCUBATION_TIME_def)
  from update_item_incubating [OF n, of u] show ?thesis
    using assms by (auto simp: incubating_def)
qed

lemma list_of_length_5:
  assumes "length us = 5"
  obtains u1 u2 u3 u4 u5 where "us = [u1, u2, u3, u4, u5]"
proof -
  from assms obtain u1 t1 where "us = u1 # t1" "length t1 = 4"
    by (cases us) auto
  moreover then obtain u2 t2 where "t1 = u2 # t2" "length t2 = 3"
    by (cases t1) auto
  moreover then obtain u3 t3 where "t2 = u3 # t3" "length t3 = 2"
    by (cases t2) auto
  moreover then obtain u4 t4 where "t3 = u4 # t4" "length t4 = 1"
    by (cases t3) auto
  moreover then obtain u5 where "t4 = [u5]"
    by (cases t4) auto
  ultimately show ?thesis
    using that by simp
qed

text \<open>
  Claim C7.  For every item that starts with no relation and receives 5 consecutive
  updates, wins or losses against any opponents, the relation list afterwards holds exactly
  one relation and its kind is \<open>Equal\<close>; after each of the first 4 updates, and before the
  first, the list has at most 4 relations (the incubation limit).
\<close>

theorem incubation_collapse:
  assumes "eloRelations (read_item st item) = []" and "length us = 5"
  shows "(\<exists>r. eloRelations (read_item (fold (update_item item) us st) item) = [r] \<and> op r = eq) \<and>
         (\<forall>k<5. length (eloRelations (read_item (fold (update_item item) (take k us) st) item))
                  \<le> ITEM_INCUBATION_TIME)"
proof -
  from assms(2) obtain u1 u2 u3 u4 u5 where us: "us = [u1, u2, u3, u4, u5]"
    by (rule list_of_length_5)
  define s1 where "s1 = update_item item u1 st"
  define s2 where "s2 = update_item item u2 s1"
  define s3 where "s3 = update_item item u3 s2"
  define s4 where "s4 = update_item item u4 s3"
  have i0: "incubating 0 (eloRelations (read_item st item))"
    using assms(1) by (simp add: incubating_def)
  have i1: "incubating 1 (eloRelations (read_item s1 item))"
    unfolding s1_def using incubating_step [OF i0] by (simp add: ITEM_INCUBATION_TIME_def)
  have i2: "incubating 2 (eloRelations (read_item s2 item))"
    unfolding s2_def using incubating_step [OF i1] by (simp add: ITEM_INCUBATION_TIME_def numeral_2_eq_2)
  have i3: "incubating 3 (eloRelations (read_item s3 item))"
    unfolding s3_def using incubating_step [OF i2] by (simp add: ITEM_INCUBATION_TIME_def numeral_3_eq_3 numeral_2_eq_2)
  have "incubating (Suc 3) (eloRelations (read_item s4 item))"
    unfolding s4_def using incubating_step [OF i3] by (simp add: ITEM_INCUBATION_TIME_def)
  then have i4: "incubating ITEM_INCUBATION_TIME (eloRelations (read_item s4 item))"
    by (simp add: ITEM_INCUBATION_TIME_def eval_nat_numeral)
  from incubating_collapse [OF i4, of u5]
  have last: "\<exists>r. eloRelations (read_item (fold (update_item item) us st) item) = [r] \<and> op r = eq"
    by (auto simp: us s1_def s2_def s3_def s4_def)
  have before: "length (eloRelations (read_item (fold (update_item item) (take k us) st) item))
                  \<le> ITEM_INCUBATION_TIME" if "k < 5" for k
  proof -
    from that consider "k = 0" | "k = 1" | "k = 2" | "k = 3" | "k = 4"
      by linarith
    then show ?thesis
    proof cases
      case 1 then show ?thesis using i0 by (simp add: incubating_def)
    next
      case 2 then show ?thesis using i1 by (simp add: incubating_def us s1_def ITEM_INCUBATION_TIME_def)
    next
      case 3 then show ?thesis
        using i2 by (simp add: incubating_def us s1_def s2_def ITEM_INCUBATION_TIME_def eval_nat_numeral)
    next
      case 4 then show ?thesis
        using i3 by (simp add: incubating_def us s1_def s2_def s3_def ITEM_INCUBATION_TIME_def eval_nat_numeral)
    next
      case 5 then show ?thesis
        using i4 by (simp add: incubating_def us s1_def s2_def s3_def s4_def ITEM_INCUBATION_TIME_def eval_nat_numeral)
    qed
  qed
  show ?thesis
    using last before by blast
qed


theorem incubation_collapse_witness:
  "eloRelations (read_item example_store 2) = [] \<and>
   length [(Win, 0), (Loss, 1), (Win, 1), (Loss, 0), (Win, 0::nat)] = 5 \<and>
   (\<exists>r. eloRelations (read_item (fold (update_item 2)
            [(Win, 0), (Loss, 1), (Win, 1), (Loss, 0), (Win, 0)] example_store) 2) = [r] \<and> op r = eq) \<and>
   length (eloRelations (read_item (fold (update_item 2)
            (take 4 [(Win, 0), (Loss, 1), (Win, 1), (Loss, 0), (Win, 0)]) example_store) 2))
     \<le> ITEM_INCUBATION_TIME"
proof -
  have h: "eloRelations (read_item example_store 2) = []"
    "length [(Win, 0), (Loss, 1), (Win, 1), (Loss, 0), (Win, 0::nat)] = 5"
    by (simp_all add: example_store_items)
  let ?us = "[(Win, 0), (Loss, 1), (Win, 1), (Loss, 0), (Win, 0::nat)]"
  from incubation_collapse [OF h]
  have c: "(\<exists>r. eloRelations (read_item (fold (update_item 2) ?us example_store) 2) = [r] \<and> op r = eq) \<and>
      (\<forall>k<5. length (eloRelations (read_item (fold (update_item 2) (take k ?us) example_store) 2))
          \<le> ITEM_INCUBATION_TIME)" .
  then have e: "\<exists>r. eloRelations (read_item (fold (update_item 2) ?us example_store) 2) = [r] \<and> op r = eq"
    by (rule conjunct1)
  from c have "\<forall>k<5. length (eloRelations (read_item (fold (update_item 2) (take k ?us) example_store) 2))
          \<le> ITEM_INCUBATION_TIME"
    by (rule conjunct2)
  then have "(4::nat) < 5 \<longrightarrow>
      length (eloRelations (read_item (fold (update_item 2) (take 4 ?us) example_store) 2))
          \<le> ITEM_INCUBATION_TIME"
    by (rule spec)
  then have f: "length (eloRelations (read_item (fold (update_item 2) (take 4 ?us) example_store) 2))
          \<le> ITEM_INCUBATION_TIME"
    by simp
  from h e f show ?thesis
    by blast
qed

section \<open>The cached estimate\<close>











section \<open>What an update leaves unchanged\<close>

text \<open>
  Claim C10, amended.  In a well-formed store, for every object \<open>c\<close> other than the item
  the updater is bound to (so for the opponent, when it is another object):
  \<^verbatim>\<open>afterWinAgainst(opponent)\<close> and \<^verbatim>\<open>afterLossAgainst(opponent)\<close> keep the title and the
  strength of \<open>c\<close>; a settled update keeps its relation list too; an incubating update
  keeps the relation list of \<open>c\<close> when \<open>c\<close> does not hold the relation array of the bound
  item, and appends the one relation it pushes when \<open>c\<close> holds that array.
\<close>

theorem update_frame:
  assumes "well_formed st" and "c < next_object st" and "c \<noteq> bound_item u"
  shows "read_item (afterWinAgainst u opponent st) c =
           (if \<not> isDefinite u \<and> eloRelations (objects st c) = eloRelations (objects st (bound_item u))
            then (read_item st c)\<lparr>eloRelations := eloRelations (read_item st c) @
                   [\<lparr>op = gt, value = estimatedElo (read_item st opponent) -
                        32 * pA (read_item st opponent) (read_item st (bound_item u))\<rparr>]\<rparr>
            else read_item st c) \<and>
         read_item (afterLossAgainst u opponent st) c =
           (if \<not> isDefinite u \<and> eloRelations (objects st c) = eloRelations (objects st (bound_item u))
            then (read_item st c)\<lparr>eloRelations := eloRelations (read_item st c) @
                   [\<lparr>op = lt, value = estimatedElo (read_item st opponent) +
                        32 * (1 - pA (read_item st opponent) (read_item st (bound_item u)))\<rparr>]\<rparr>
            else read_item st c)"
proof -
  have a: "eloRelations (objects st c) < next_array st"
    using assms(1,2) by (simp add: well_formed_def)
  show ?thesis
    using frame_win [OF a assms(3)] frame_loss [OF a assms(3)] by simp
qed

theorem update_frame_witness:
  "well_formed copied_store \<and>
   (2::nat) < next_object copied_store \<and> (2::nat) \<noteq> bound_item (updateRating copied_store 3) \<and>
   (1::nat) < next_object copied_store \<and> (1::nat) \<noteq> bound_item (updateRating copied_store 3) \<and>
   (2::nat) \<noteq> bound_item (updateRating copied_store 0) \<and>
   read_item (afterWinAgainst (updateRating copied_store 3) 1 copied_store) 2 =
     \<lparr>title = ''Carol'', estimatedElo = Num 600, eloRelations = [\<lparr>op = gt, value = Num 584\<rparr>]\<rparr> \<and>
   read_item (afterLossAgainst (updateRating copied_store 3) 1 copied_store) 2 =
     \<lparr>title = ''Carol'', estimatedElo = Num 600, eloRelations = [\<lparr>op = lt, value = Num 616\<rparr>]\<rparr> \<and>
   read_item (afterWinAgainst (updateRating copied_store 3) 1 copied_store) 1 =
     \<lparr>title = ''Bob'', estimatedElo = Num 600, eloRelations = [\<lparr>op = eq, value = Num 600\<rparr>]\<rparr> \<and>
   read_item (afterLossAgainst (updateRating copied_store 0) 1 copied_store) 2 =
     \<lparr>title = ''Carol'', estimatedElo = Num 600, eloRelations = []\<rparr>"
proof -
  have h2: "(2::nat) < next_object copied_store" "(2::nat) \<noteq> bound_item (updateRating copied_store 3)"
    by (simp_all add: copied_store_more copied_store_updaters)
  have h1: "(1::nat) < next_object copied_store" "(1::nat) \<noteq> bound_item (updateRating copied_store 3)"
    by (simp_all add: copied_store_more copied_store_updaters)
  have h0: "(2::nat) \<noteq> bound_item (updateRating copied_store 0)"
    by (simp add: copied_store_updaters)
  have a: "read_item (afterWinAgainst (updateRating copied_store 3) 1 copied_store) 2 =
     \<lparr>title = ''Carol'', estimatedElo = Num 600, eloRelations = [\<lparr>op = gt, value = Num 584\<rparr>]\<rparr>"
    "read_item (afterLossAgainst (updateRating copied_store 3) 1 copied_store) 2 =
     \<lparr>title = ''Carol'', estimatedElo = Num 600, eloRelations = [\<lparr>op = lt, value = Num 616\<rparr>]\<rparr>"
    using update_frame [OF copied_store_well_formed h2, of 1]
    by (simp_all add: copied_store_updaters copied_store_objects copied_store_items pA_def)
  have b: "read_item (afterWinAgainst (updateRating copied_store 3) 1 copied_store) 1 =
     \<lparr>title = ''Bob'', estimatedElo = Num 600, eloRelations = [\<lparr>op = eq, value = Num 600\<rparr>]\<rparr>"
    using update_frame [OF copied_store_well_formed h1, of 1]
    by (simp add: copied_store_updaters copied_store_objects copied_store_more copied_store_items)
  have c: "read_item (afterLossAgainst (updateRating copied_store 0) 1 copied_store) 2 =
     \<lparr>title = ''Carol'', estimatedElo = Num 600, eloRelations = []\<rparr>"
    using update_frame [OF copied_store_well_formed h2(1) h0, of 1]
    by (simp add: copied_store_updaters copied_store_items)
  show ?thesis
    using copied_store_well_formed h2 h1 h0 a b c by simp
qed

text \<open>
  Claim C10 as stated fails when an object shares the relation array of the bound item,
  as a shallow copy and its original do (lines 293 to 300 update a shallow copy).  In the
  store with the copy 3 of the item 2: an update of 3 against the opponent 0 changes the
  relation list of the item 2, which the updater is not bound to; and an update of 3
  against the opponent 2 changes the relation list of the opponent.
\<close>

theorem update_changes_sharing_item:
  "read_item (afterWinAgainst (updateRating copied_store 3) 0 copied_store) 2 \<noteq> read_item copied_store 2 \<and>
   read_item (afterLossAgainst (updateRating copied_store 3) 2 copied_store) 2 \<noteq> read_item copied_store 2"
  by (simp add: afterWinAgainst_def afterLossAgainst_def updateRating_def collapse_def Let_def
      store_defs copied_store_objects ITEM_INCUBATION_TIME_def)

end
